theory Spec2Isabelle
  imports Main
begin

section \<open>Strings and characters\<close>

text \<open>
  The program is \<^verbatim>\<open>url_redirect_visualizer_full.py\<close>. A Python \<^verbatim>\<open>str\<close> is modelled as a
  \<^typ>\<open>string\<close>, one \<^typ>\<open>char\<close> per code point; the model therefore covers the strings whose
  code points are below 256. An \<^verbatim>\<open>int\<close> is an \<^typ>\<open>int\<close>.
\<close>

definition is_digit :: "char \<Rightarrow> bool" where
  \<comment> \<open>\<^verbatim>\<open>\d\<close> of a \<^verbatim>\<open>str\<close> pattern: the decimal digits; below 256 these are 0 to 9.\<close>
  "is_digit c = (c \<in> set ''0123456789'')"

definition is_ascii_alpha :: "char \<Rightarrow> bool" where
  "is_ascii_alpha c =
     (c \<in> set ''abcdefghijklmnopqrstuvwxyzABCDEFGHIJKLMNOPQRSTUVWXYZ'')"

definition is_word :: "char \<Rightarrow> bool" where
  \<comment> \<open>\<^verbatim>\<open>\w\<close> of a \<^verbatim>\<open>str\<close> pattern: alphanumeric or underscore. Below 256 the
      alphanumeric code points beyond ASCII are 0xAA, 0xB2, 0xB3, 0xB5, 0xB9, 0xBA, 0xBC to 0xBE,
      and 0xC0 to 0xFF without 0xD7 and 0xF7.\<close>
  "is_word c =
     (is_ascii_alpha c \<or> is_digit c \<or> c = CHR ''_'' \<or>
      (let n = (of_char c :: nat) in
         n \<in> set [0xAA, 0xB2, 0xB3, 0xB5, 0xB9, 0xBA, 0xBC, 0xBD, 0xBE] \<or>
         (0xC0 \<le> n \<and> n \<le> 0xFF \<and> n \<noteq> 0xD7 \<and> n \<noteq> 0xF7)))"

definition is_space :: "char \<Rightarrow> bool" where
  \<comment> \<open>\<^verbatim>\<open>str.isspace\<close>, the characters that \<^verbatim>\<open>str.strip()\<close> removes.\<close>
  "is_space c =
     ((of_char c :: nat) \<in> set [0x09, 0x0A, 0x0B, 0x0C, 0x0D, 0x1C, 0x1D, 0x1E, 0x1F, 0x20, 0x85, 0xA0])"

definition lower :: "char \<Rightarrow> char" where
  \<comment> \<open>Lower case of an ASCII letter; every other character is left as it is.\<close>
  "lower c =
     (case map_of (zip ''ABCDEFGHIJKLMNOPQRSTUVWXYZ'' ''abcdefghijklmnopqrstuvwxyz'') c of
        Some l \<Rightarrow> l
      | None \<Rightarrow> c)"

definition strip :: "string \<Rightarrow> string" where
  \<comment> \<open>\<^verbatim>\<open>str.strip()\<close>\<close>
  "strip s = rev (dropWhile is_space (rev (dropWhile is_space s)))"

definition endswith :: "string \<Rightarrow> string \<Rightarrow> bool" where
  \<comment> \<open>\<^verbatim>\<open>s.endswith(suffix)\<close>\<close>
  "endswith s suffix = (length suffix \<le> length s \<and> drop (length s - length suffix) s = suffix)"

fun join :: "string \<Rightarrow> string list \<Rightarrow> string" where
  \<comment> \<open>\<^verbatim>\<open>sep.join(xs)\<close>\<close>
  "join sep [] = []"
| "join sep [x] = x"
| "join sep (x # y # ys) = x @ sep @ join sep (y # ys)"

fun split_on :: "char \<Rightarrow> string \<Rightarrow> string list" where
  \<comment> \<open>\<^verbatim>\<open>s.split(sep)\<close> for a separator of one character.\<close>
  "split_on sep [] = [[]]"
| "split_on sep (c # cs) =
     (if c = sep then [] # split_on sep cs
      else (case split_on sep cs of
              [] \<Rightarrow> [[c]]
            | w # ws \<Rightarrow> (c # w) # ws))"

section \<open>Regular expressions\<close>

text \<open>
  The patterns of the program use literals, character classes, alternation, \<^verbatim>\<open>?\<close>, \<^verbatim>\<open>+\<close>
  and \<^verbatim>\<open>{n,}\<close>, and the program only asks whether there is a match. They are values of
  the datatype \<open>regex\<close>, matched by derivatives.
\<close>

datatype regex =
    Never
  | Empty
  | Sym "char \<Rightarrow> bool"
  | Alt regex regex
  | Cat regex regex
  | Star regex

primrec nullable :: "regex \<Rightarrow> bool" where
  "nullable Never = False"
| "nullable Empty = True"
| "nullable (Sym p) = False"
| "nullable (Alt r s) = (nullable r \<or> nullable s)"
| "nullable (Cat r s) = (nullable r \<and> nullable s)"
| "nullable (Star r) = True"

fun alt :: "regex \<Rightarrow> regex \<Rightarrow> regex" where
  "alt Never s = s"
| "alt r Never = r"
| "alt r s = Alt r s"

fun cat :: "regex \<Rightarrow> regex \<Rightarrow> regex" where
  "cat Never s = Never"
| "cat Empty s = s"
| "cat r s = Cat r s"

primrec deriv :: "char \<Rightarrow> regex \<Rightarrow> regex" where
  "deriv c Never = Never"
| "deriv c Empty = Never"
| "deriv c (Sym p) = (if p c then Empty else Never)"
| "deriv c (Alt r s) = alt (deriv c r) (deriv c s)"
| "deriv c (Cat r s) =
     (if nullable r then alt (cat (deriv c r) s) (deriv c s) else cat (deriv c r) s)"
| "deriv c (Star r) = cat (deriv c r) (Star r)"

fun fullmatch :: "regex \<Rightarrow> string \<Rightarrow> bool" where
  \<comment> \<open>the whole string matches\<close>
  "fullmatch r [] = nullable r"
| "fullmatch r (c # cs) = fullmatch (deriv c r) cs"

fun re_match :: "regex \<Rightarrow> string \<Rightarrow> bool" where
  \<comment> \<open>\<^verbatim>\<open>re.match(r, s)\<close> is not \<^verbatim>\<open>None\<close>: a prefix of the string matches\<close>
  "re_match r [] = nullable r"
| "re_match r (c # cs) = (nullable r \<or> re_match (deriv c r) cs)"

fun re_search :: "regex \<Rightarrow> string \<Rightarrow> bool" where
  \<comment> \<open>\<^verbatim>\<open>re.search(r, s)\<close> is not \<^verbatim>\<open>None\<close>: the match may start anywhere\<close>
  "re_search r [] = nullable r"
| "re_search r (c # cs) = (re_match r (c # cs) \<or> re_search r cs)"

definition re_match_to_end :: "regex \<Rightarrow> string \<Rightarrow> bool" where
  \<comment> \<open>\<^verbatim>\<open>re.match\<close> of a pattern \<^verbatim>\<open>^r$\<close>: without \<^verbatim>\<open>re.MULTILINE\<close> the \<^verbatim>\<open>$\<close> matches at
      the end of the string and also just before a newline that ends the string.\<close>
  "re_match_to_end r s =
     (fullmatch r s \<or> (s \<noteq> [] \<and> last s = CHR 0x0A \<and> fullmatch r (butlast s)))"

subsection \<open>Writing patterns\<close>

definition chr :: "char \<Rightarrow> regex" where
  "chr c = Sym (\<lambda>x. x = c)"

definition chr_i :: "char \<Rightarrow> regex" where
  \<comment> \<open>a literal character under \<^verbatim>\<open>re.IGNORECASE\<close>\<close>
  "chr_i c = Sym (\<lambda>x. lower x = lower c)"

definition seq :: "regex list \<Rightarrow> regex" where
  "seq rs = foldr Cat rs Empty"

definition alts :: "regex list \<Rightarrow> regex" where
  \<comment> \<open>\<^verbatim>\<open>r1|r2|...\<close>\<close>
  "alts rs = foldr Alt rs Never"

definition lit :: "string \<Rightarrow> regex" where
  "lit s = seq (map chr s)"

definition lit_i :: "string \<Rightarrow> regex" where
  "lit_i s = seq (map chr_i s)"

definition opt :: "regex \<Rightarrow> regex" where
  \<comment> \<open>\<^verbatim>\<open>r?\<close>\<close>
  "opt r = Alt r Empty"

definition one_or_more :: "regex \<Rightarrow> regex" where
  \<comment> \<open>\<^verbatim>\<open>r+\<close> and \<^verbatim>\<open>r{1,}\<close>\<close>
  "one_or_more r = Cat r (Star r)"

definition at_least3 :: "regex \<Rightarrow> regex" where
  \<comment> \<open>\<^verbatim>\<open>r{3,}\<close>\<close>
  "at_least3 r = Cat r (Cat r (one_or_more r))"

section \<open>Parsing a URL\<close>

text \<open>
  \<^verbatim>\<open>urllib.parse.urlparse\<close> belongs to the Python library, not to the program.
  \<open>check_url\<close> takes the parser as an argument: it returns the parsed components or raises.
  Of the six components \<open>check_url\<close> reads \<^verbatim>\<open>scheme\<close> and \<^verbatim>\<open>netloc\<close>.
\<close>

datatype error = ValueError

record parse_result =
  scheme :: string
  netloc :: string

type_synonym url_parser = "string \<Rightarrow> error + parse_result"

definition any_host :: "string \<Rightarrow> bool" where
  \<comment> \<open>the bracketed hosts accepted by a Python before 3.11.4: all of them\<close>
  "any_host h = True"

text \<open>
  The parser of CPython 3.11, \<^verbatim>\<open>urlsplit\<close> in \<^verbatim>\<open>urllib/parse.py\<close>, for the two components.
  \<^item> The validation of a bracketed host (\<^verbatim>\<open>_check_bracketed_host\<close>, which asks the
    \<^verbatim>\<open>ipaddress\<close> module) is the argument \<open>bracketed_host_ok\<close>; Python versions before
    3.11.4 have no such validation, which is \<open>any_host\<close>.
  \<^item> \<^verbatim>\<open>_checknetloc\<close> raises when the NFKC normal form of the host holds one of
    \<^verbatim>\<open>/?#@:\<close> that the host did not hold; no code point below 256 normalises to one
    of these, so the step never raises on the strings of this model.
\<close>

definition splitnetloc :: "string \<Rightarrow> string \<times> string" where
  \<comment> \<open>\<^verbatim>\<open>_splitnetloc(url, 2)\<close>: the host ends at the first of \<^verbatim>\<open>/ ? #\<close>\<close>
  "splitnetloc url =
     (takeWhile (\<lambda>c. c \<notin> set ''/?#'') (drop 2 url),
      dropWhile (\<lambda>c. c \<notin> set ''/?#'') (drop 2 url))"

definition urlparse :: "(string \<Rightarrow> bool) \<Rightarrow> url_parser" where
  "urlparse bracketed_host_ok url0 =
     (let url = dropWhile (\<lambda>c. (of_char c :: nat) \<le> 0x20) url0;
          url = filter (\<lambda>c. c \<notin> set [CHR 0x09, CHR 0x0D, CHR 0x0A]) url;
          head = takeWhile (\<lambda>c. c \<noteq> CHR '':'') url;
          (scheme, url) =
            (if CHR '':'' \<in> set url \<and> head \<noteq> [] \<and> is_ascii_alpha (hd url) \<and>
                list_all (\<lambda>c. is_ascii_alpha c \<or> is_digit c \<or> c \<in> set ''+-.'') head
             then (map lower head, drop (length head + 1) url)
             else ([], url))
      in if take 2 url = ''//'' then
           (let (netloc, url) = splitnetloc url;
                bracketed_host =
                  takeWhile (\<lambda>c. c \<noteq> CHR '']'') (drop 1 (dropWhile (\<lambda>c. c \<noteq> CHR ''['') netloc))
            in if (CHR ''['' \<in> set netloc \<and> CHR '']'' \<notin> set netloc) \<or>
                  (CHR '']'' \<in> set netloc \<and> CHR ''['' \<notin> set netloc)
               then Inl ValueError
               else if CHR ''['' \<in> set netloc \<and> CHR '']'' \<in> set netloc \<and>
                       \<not> bracketed_host_ok bracketed_host
               then Inl ValueError
               else Inr \<lparr>scheme = scheme, netloc = netloc\<rparr>)
         else Inr \<lparr>scheme = scheme, netloc = []\<rparr>)"

section \<open>Detection logic\<close>

definition ip_address_pattern :: regex where
  \<comment> \<open>\<^verbatim>\<open>http[s]?://\d+\.\d+\.\d+\.\d+\<close>\<close>
  "ip_address_pattern =
     seq [lit ''http'', opt (chr CHR ''s''), lit ''://'',
          one_or_more (Sym is_digit), chr CHR ''.'', one_or_more (Sym is_digit), chr CHR ''.'',
          one_or_more (Sym is_digit), chr CHR ''.'', one_or_more (Sym is_digit)]"

definition url_keyword_pattern :: regex where
  \<comment> \<open>\<^verbatim>\<open>(free|login|verify|update|secure|bank|paypal|confirm|account)\<close>, \<^verbatim>\<open>re.IGNORECASE\<close>\<close>
  "url_keyword_pattern =
     alts (map lit_i [''free'', ''login'', ''verify'', ''update'', ''secure'', ''bank'',
                      ''paypal'', ''confirm'', ''account''])"

definition shortener_pattern :: regex where
  \<comment> \<open>\<^verbatim>\<open>http[s]?://(bit\.ly|tinyurl\.com|goo\.gl|t\.co)\<close>\<close>
  "shortener_pattern =
     seq [lit ''http'', opt (chr CHR ''s''), lit ''://'',
          alts (map lit [''bit.ly'', ''tinyurl.com'', ''goo.gl'', ''t.co''])]"

definition at_pattern :: regex where
  \<comment> \<open>\<^verbatim>\<open>[@]{1,}\<close>\<close>
  "at_pattern = one_or_more (Sym (\<lambda>c. c \<in> set ''@''))"

definition symbols_pattern :: regex where
  \<comment> \<open>\<^verbatim>\<open>[\?\=\&]{3,}\<close>\<close>
  "symbols_pattern = at_least3 (Sym (\<lambda>c. c \<in> set ''?=&''))"

definition lookalike_pattern :: regex where
  \<comment> \<open>\<^verbatim>\<open>goog1e|facebo0k|paypa1\<close>, \<^verbatim>\<open>re.IGNORECASE\<close>\<close>
  "lookalike_pattern = alts (map lit_i [''goog1e'', ''facebo0k'', ''paypa1''])"

definition flag :: "string \<Rightarrow> int \<Rightarrow> int \<times> string list \<Rightarrow> int \<times> string list" where
  \<comment> \<open>\<^verbatim>\<open>issues.append(label); score += points\<close>, on the pair of the score and the issues\<close>
  "flag label points = (\<lambda>(score, issues). (score + points, issues @ [label]))"

definition check_url :: "url_parser \<Rightarrow> string \<Rightarrow> int \<times> string list" where
  "check_url parse url =
     (let r = (0, []);
          r = (case parse url of
                 Inr parsed \<Rightarrow>
                   if scheme parsed = [] \<or> netloc parsed = []
                   then flag ''Invalid URL format'' 5 r else r
               | Inl e \<Rightarrow> flag ''Malformed URL'' 5 r);
          r = (if re_match ip_address_pattern url then flag ''Contains IP address'' 3 r else r);
          r = (if re_search url_keyword_pattern url then flag ''Suspicious keywords'' 2 r else r);
          r = (if re_match shortener_pattern url then flag ''Shortened URL'' 2 r else r);
          r = (if re_search at_pattern url then flag ''Contains @ symbol'' 2 r else r);
          r = (if re_search symbols_pattern url then flag ''Excessive symbols'' 1 r else r);
          r = (if re_search lookalike_pattern url then flag ''Possible phishing domain'' 3 r else r);
          (score, issues) = r;
          score = min score 10;
          issues = (if score = 0 then issues @ [''No obvious issues found''] else issues)
      in (score, issues))"

definition email_pattern :: regex where
  \<comment> \<open>\<^verbatim>\<open>[\w\.-]+@[\w\.-]+\.\w+\<close>, the pattern between \<^verbatim>\<open>^\<close> and \<^verbatim>\<open>$\<close>\<close>
  "email_pattern =
     seq [one_or_more (Sym (\<lambda>c. is_word c \<or> c \<in> set ''.-'')), chr CHR ''@'',
          one_or_more (Sym (\<lambda>c. is_word c \<or> c \<in> set ''.-'')), chr CHR ''.'', one_or_more (Sym is_word)]"

definition email_keyword_pattern :: regex where
  \<comment> \<open>\<^verbatim>\<open>(admin|support|verify|noreply|security|alert)\<close>, \<^verbatim>\<open>re.IGNORECASE\<close>\<close>
  "email_keyword_pattern =
     alts (map lit_i [''admin'', ''support'', ''verify'', ''noreply'', ''security'', ''alert''])"

definition check_email :: "string \<Rightarrow> int \<times> string list" where
  "check_email email =
     (let r = (0, []);
          r = (if \<not> re_match_to_end email_pattern email
               then flag ''Invalid email format'' 5 r else r);
          r = (if re_search email_keyword_pattern email then flag ''Suspicious keywords'' 3 r else r);
          r = (if list_ex (endswith email) [''.xyz'', ''.club'', ''.top'', ''.online'']
               then flag ''Suspicious TLD'' 2 r else r);
          (score, issues) = r;
          score = min score 10;
          issues = (if score = 0 then issues @ [''No obvious issues found''] else issues)
      in (score, issues))"

section \<open>Analysis\<close>

text \<open>
  The status of a row. The program writes it as a label: \<^verbatim>\<open>SUSPICIOUS\<close>, \<^verbatim>\<open>POTENTIAL\<close>
  or \<^verbatim>\<open>SAFE\<close>, each followed by a pictogram.
\<close>

datatype status = SAFE | POTENTIAL | SUSPICIOUS

definition classify :: "int \<Rightarrow> status" where
  \<comment> \<open>the \<^verbatim>\<open>if score >= 5 ... elif score > 0 ... else\<close> of \<^verbatim>\<open>analyze_input\<close>\<close>
  "classify score = (if score \<ge> 5 then SUSPICIOUS else if score > 0 then POTENTIAL else SAFE)"

definition score_entry :: "url_parser \<Rightarrow> string \<Rightarrow> int \<times> string list" where
  \<comment> \<open>the dispatch of \<^verbatim>\<open>analyze_input\<close>: an entry with an \<^verbatim>\<open>@\<close> is an e-mail address\<close>
  "score_entry parse entry =
     (if CHR ''@'' \<in> set entry then check_email entry else check_url parse entry)"

record row =
  Input :: string
  Issues :: string
  Score :: int
  Status :: status

definition make_row :: "url_parser \<Rightarrow> string \<Rightarrow> row" where
  \<comment> \<open>the dictionary that the loop of \<^verbatim>\<open>analyze_input\<close> appends to \<^verbatim>\<open>self.results\<close>\<close>
  "make_row parse entry =
     (let (score, issues) = score_entry parse entry;
          status = classify score
      in \<lparr>Input = entry, Issues = join '', '' issues, Score = score, Status = status\<rparr>)"

record tally =
  rows :: "row list"
  safe_count :: int
  risk_count :: int
  suspicious_count :: int

definition analyze_entry :: "url_parser \<Rightarrow> tally \<Rightarrow> string \<Rightarrow> tally" where
  \<comment> \<open>one turn of the loop over the entries\<close>
  "analyze_entry parse t entry =
     (let new = make_row parse entry;
          t = (case Status new of
                 SUSPICIOUS \<Rightarrow> t\<lparr>suspicious_count := suspicious_count t + 1\<rparr>
               | POTENTIAL \<Rightarrow> t\<lparr>risk_count := risk_count t + 1\<rparr>
               | SAFE \<Rightarrow> t\<lparr>safe_count := safe_count t + 1\<rparr>)
      in t\<lparr>rows := rows t @ [new]\<rparr>)"

definition entry_lines :: "string \<Rightarrow> string list" where
  \<comment> \<open>\<^verbatim>\<open>[line.strip() for line in text.split("\n") if line.strip()]\<close>\<close>
  "entry_lines text = map strip (filter (\<lambda>line. strip line \<noteq> []) (split_on (CHR 0x0A) text))"

subsection \<open>The history file\<close>

text \<open>
  \<^verbatim>\<open>pandas\<close> reads and writes the history file. The table it holds is a list of rows
  with the four columns of the program. The reader and the writer are arguments.
  \<^item> \<open>read_csv\<close> gives the table of what is at the path, or raises.
  \<^item> \<open>to_csv\<close> is the call \<^verbatim>\<open>df.to_csv(self.history_file, index=False)\<close>: from the table
    and what is at the path (\<open>None\<close> when nothing is there) it gives what the path holds
    afterwards, or raises; a write that raises is taken to leave the path as it was.

  The read is inside the \<^verbatim>\<open>try\<close> and every exception of it is caught. The write is the
  last statement of \<^verbatim>\<open>analyze_input\<close>, outside the \<^verbatim>\<open>try\<close>: nothing catches what it raises.
  \<open>append_history\<close> returns what the path holds afterwards and the exception that left
  it, if any.
\<close>

type_synonym frame = "row list"

definition append_history ::
    "(frame \<Rightarrow> 'f option \<Rightarrow> 'e + 'f) \<Rightarrow> ('f \<Rightarrow> 'e + frame) \<Rightarrow> row list \<Rightarrow> 'f option \<Rightarrow>
       'f option \<times> 'e option" where
  \<comment> \<open>the end of \<^verbatim>\<open>analyze_input\<close>, from \<^verbatim>\<open>if os.path.exists(self.history_file)\<close> on\<close>
  "append_history to_csv read_csv results history_file =
     (let df = (case history_file of
                  Some existing \<Rightarrow>
                    (case read_csv existing of
                       Inr df_existing \<Rightarrow> df_existing @ results
                     | Inl e \<Rightarrow> results)
                | None \<Rightarrow> results)
      in case to_csv df history_file of
           Inr written \<Rightarrow> (Some written, None)
         | Inl e \<Rightarrow> (history_file, Some e))"

record 'f checker =
  results :: "row list"
  safe_card :: int
  risk_card :: int
  suspicious_card :: int
  history_file :: "'f option"

definition analyze_input ::
    "(frame \<Rightarrow> 'f option \<Rightarrow> 'e + 'f) \<Rightarrow> ('f \<Rightarrow> 'e + frame) \<Rightarrow> url_parser \<Rightarrow> 'f checker \<Rightarrow> string \<Rightarrow>
       'f checker \<times> 'e option" where
  \<comment> \<open>\<open>text\<close> is the contents of the input box; the cards show the three counts. The
      result is the state in which the method leaves the program and the exception that
      left it, \<open>None\<close> when it returns. The results and the cards are set before the write.\<close>
  "analyze_input to_csv read_csv parse self text0 =
     (let text = strip text0
      in if text = [] then (self, None)
         else
           (let t = foldl (analyze_entry parse)
                      \<lparr>rows = [], safe_count = 0, risk_count = 0, suspicious_count = 0\<rparr>
                      (entry_lines text);
                (written, raised) = append_history to_csv read_csv (rows t) (history_file self)
            in (self\<lparr>results := rows t,
                     safe_card := safe_count t,
                     risk_card := risk_count t,
                     suspicious_card := suspicious_count t,
                     history_file := written\<rparr>,
                raised)))"

subsection \<open>The defaults of pandas\<close>

text \<open>
  The program calls \<^verbatim>\<open>pd.read_csv\<close> and \<^verbatim>\<open>to_csv\<close> with their default arguments. With
  these, \<^verbatim>\<open>read_csv\<close> reads a cell that is empty or holds one of the texts of
  \<open>na_values\<close> as a missing value, and \<^verbatim>\<open>to_csv\<close> writes a missing value as the empty
  text. Here a CSV file is the table of its cells and a missing value is the empty text.
  Nothing else of the type inference of \<^verbatim>\<open>read_csv\<close> is modelled: a cell that looks like
  a number is kept as its text.
\<close>

datatype io_error = EmptyDataError | IsADirectoryError

definition na_values :: "string list" where
  "na_values =
     [''#N/A'', ''#N/A N/A'', ''#NA'', ''-1.#IND'', ''-1.#QNAN'', ''-NaN'', ''-nan'', ''1.#IND'',
      ''1.#QNAN'', ''<NA>'', ''N/A'', ''NA'', ''NULL'', ''NaN'', ''None'', ''n/a'', ''nan'', ''null'']"

definition read_cell :: "string \<Rightarrow> string" where
  "read_cell text = (if text \<in> set na_values then [] else text)"

definition pandas_to_csv :: "frame \<Rightarrow> frame option \<Rightarrow> io_error + frame" where
  \<comment> \<open>writing to a path that holds a CSV file or nothing\<close>
  "pandas_to_csv df path = Inr df"

definition pandas_read_csv :: "frame \<Rightarrow> io_error + frame" where
  "pandas_read_csv file =
     Inr (map (\<lambda>r. r\<lparr>Input := read_cell (Input r), Issues := read_cell (Issues r)\<rparr>) file)"

text \<open>
  What may be at the path of the history file: a directory, a file of no bytes, or a CSV
  file. Opening a directory raises \<^verbatim>\<open>IsADirectoryError\<close>, for reading and for writing;
  \<^verbatim>\<open>read_csv\<close> raises \<^verbatim>\<open>EmptyDataError\<close> on a file of no bytes, which can be written as
  any file.
\<close>

datatype path_state = Directory | EmptyFile | CsvFile frame

fun read_path :: "path_state \<Rightarrow> io_error + frame" where
  "read_path Directory = Inl IsADirectoryError"
| "read_path EmptyFile = Inl EmptyDataError"
| "read_path (CsvFile cells) = pandas_read_csv cells"

fun write_path :: "frame \<Rightarrow> path_state option \<Rightarrow> io_error + path_state" where
  "write_path df (Some Directory) = Inl IsADirectoryError"
| "write_path df path = Inr (CsvFile df)"

section \<open>The language of a pattern\<close>

definition conc :: "string set \<Rightarrow> string set \<Rightarrow> string set" where
  "conc A B = {u @ v | u v. u \<in> A \<and> v \<in> B}"

inductive_set star :: "string set \<Rightarrow> string set" for A :: "string set" where
  star_nil: "[] \<in> star A"
| star_app: "u \<in> A \<Longrightarrow> v \<in> star A \<Longrightarrow> u @ v \<in> star A"

primrec lang :: "regex \<Rightarrow> string set" where
  "lang Never = {}"
| "lang Empty = {[]}"
| "lang (Sym p) = {[c] | c. p c}"
| "lang (Alt r s) = lang r \<union> lang s"
| "lang (Cat r s) = conc (lang r) (lang s)"
| "lang (Star r) = star (lang r)"

section \<open>Auxiliary notions\<close>

definition consistent :: "string \<Rightarrow> int \<times> string list \<Rightarrow> bool" where
  \<comment> \<open>what holds of the score and the issues between two rules: the score is positive exactly
      when an issue is listed, and the label \<open>x\<close> is not among the issues\<close>
  "consistent x r = (0 \<le> fst r \<and> (fst r = 0) = (snd r = []) \<and> x \<notin> set (snd r))"

definition differ_in_head ::
    "string \<Rightarrow> string \<Rightarrow> int \<times> string list \<Rightarrow> int \<times> string list \<Rightarrow> bool" where
  \<comment> \<open>two runs of the rules that agree but for their first issue, \<open>a\<close> in one and \<open>b\<close> in
      the other, neither label occurring further on\<close>
  "differ_in_head a b r r' =
     (fst r = fst r' \<and> 5 \<le> fst r \<and>
      (\<exists>rest. snd r = a # rest \<and> snd r' = b # rest \<and> a \<notin> set rest \<and> b \<notin> set rest))"

section \<open>The matcher decides the language\<close>

lemma nullable_lang: "nullable r \<longleftrightarrow> [] \<in> lang r"
  by (induction r) (auto simp: conc_def intro: star_nil)

lemma lang_alt: "lang (alt r s) = lang r \<union> lang s"
  by (induction r s rule: alt.induct) auto

lemma lang_cat: "lang (cat r s) = conc (lang r) (lang s)"
  by (induction r s rule: cat.induct) (auto simp: conc_def)

lemma star_cons:
  "c # w \<in> star A \<longleftrightarrow> (\<exists>u v. w = u @ v \<and> c # u \<in> A \<and> v \<in> star A)"
proof
  assume "c # w \<in> star A"
  then show "\<exists>u v. w = u @ v \<and> c # u \<in> A \<and> v \<in> star A"
  proof (induction "c # w" rule: star.induct)
    case (star_app u v)
    then show ?case by (cases u) auto
  qed
next
  assume "\<exists>u v. w = u @ v \<and> c # u \<in> A \<and> v \<in> star A"
  then obtain u v where "w = u @ v" "c # u \<in> A" "v \<in> star A" by blast
  then show "c # w \<in> star A" using star.star_app [of "c # u" A v] by simp
qed

lemma conc_cons:
  "c # w \<in> conc A B \<longleftrightarrow>
     ([] \<in> A \<and> c # w \<in> B) \<or> (\<exists>u v. w = u @ v \<and> c # u \<in> A \<and> v \<in> B)"
  by (auto simp: conc_def Cons_eq_append_conv)

lemma deriv_lang: "w \<in> lang (deriv c r) \<longleftrightarrow> c # w \<in> lang r"
proof (induction r arbitrary: w)
  case (Cat r s)
  then show ?case
    by (auto simp: lang_alt lang_cat conc_cons nullable_lang) (auto simp: conc_def)
next
  case (Star r)
  then show ?case by (auto simp: lang_cat star_cons conc_def)
qed (auto simp: lang_alt)

lemma fullmatch_lang: "fullmatch r s \<longleftrightarrow> s \<in> lang r"
  by (induction s arbitrary: r) (auto simp: nullable_lang deriv_lang)

lemma re_match_lang: "re_match r s \<longleftrightarrow> (\<exists>u v. s = u @ v \<and> u \<in> lang r)"
proof (induction s arbitrary: r)
  case Nil
  then show ?case by (simp add: nullable_lang)
next
  case (Cons c cs)
  show ?case
  proof
    assume "re_match r (c # cs)"
    then consider "nullable r" | "re_match (deriv c r) cs" by auto
    then show "\<exists>u v. c # cs = u @ v \<and> u \<in> lang r"
    proof cases
      case 1
      then have "c # cs = [] @ (c # cs) \<and> [] \<in> lang r" by (simp add: nullable_lang)
      then show ?thesis by blast
    next
      case 2
      then obtain u v where "cs = u @ v" "u \<in> lang (deriv c r)" using Cons.IH by blast
      then have "c # cs = (c # u) @ v \<and> c # u \<in> lang r" by (simp add: deriv_lang)
      then show ?thesis by blast
    qed
  next
    assume "\<exists>u v. c # cs = u @ v \<and> u \<in> lang r"
    then obtain u v where uv: "c # cs = u @ v" "u \<in> lang r" by blast
    show "re_match r (c # cs)"
    proof (cases u)
      case Nil
      with uv have "nullable r" by (simp add: nullable_lang)
      then show ?thesis by simp
    next
      case (Cons d u')
      with uv have "cs = u' @ v" "u' \<in> lang (deriv c r)" by (auto simp: deriv_lang)
      then have "re_match (deriv c r) cs" using Cons.IH by blast
      then show ?thesis by simp
    qed
  qed
qed

lemma re_search_lang: "re_search r s \<longleftrightarrow> (\<exists>t u v. s = t @ u @ v \<and> u \<in> lang r)"
proof (induction s)
  case Nil
  then show ?case by (simp add: nullable_lang)
next
  case (Cons c cs)
  show ?case
  proof
    assume "re_search r (c # cs)"
    then consider "re_match r (c # cs)" | "re_search r cs" by auto
    then show "\<exists>t u v. c # cs = t @ u @ v \<and> u \<in> lang r"
    proof cases
      case 1
      then obtain u v where "c # cs = [] @ u @ v \<and> u \<in> lang r"
        unfolding re_match_lang by auto
      then show ?thesis by blast
    next
      case 2
      then obtain t u v where "cs = t @ u @ v" "u \<in> lang r" using Cons.IH by blast
      then have "c # cs = (c # t) @ u @ v \<and> u \<in> lang r" by simp
      then show ?thesis by blast
    qed
  next
    assume "\<exists>t u v. c # cs = t @ u @ v \<and> u \<in> lang r"
    then obtain t u v where tuv: "c # cs = t @ u @ v" "u \<in> lang r" by blast
    show "re_search r (c # cs)"
    proof (cases t)
      case Nil
      with tuv have "re_match r (c # cs)" unfolding re_match_lang by auto
      then show ?thesis by simp
    next
      case (Cons d t')
      with tuv have "cs = t' @ u @ v" by simp
      with tuv have "re_search r cs" using Cons.IH by blast
      then show ?thesis by simp
    qed
  qed
qed

lemma at_search: "re_search at_pattern s \<longleftrightarrow> CHR ''@'' \<in> set s"
proof
  assume "re_search at_pattern s"
  then obtain t u v where "s = t @ u @ v" "u \<in> lang at_pattern"
    unfolding re_search_lang by blast
  then show "CHR ''@'' \<in> set s" by (auto simp: at_pattern_def one_or_more_def conc_def)
next
  assume "CHR ''@'' \<in> set s"
  then obtain t v where "s = t @ [CHR ''@''] @ v" by (auto simp: in_set_conv_decomp)
  moreover have "[CHR ''@''] \<in> lang at_pattern"
    by (auto simp: at_pattern_def one_or_more_def conc_def intro: star_nil)
  ultimately show "re_search at_pattern s" unfolding re_search_lang by blast
qed

section \<open>The rules keep the score and the issues consistent\<close>

lemma fst_flag: "fst (flag l k r) = fst r + k"
  by (simp add: flag_def split_beta)

lemma snd_flag: "snd (flag l k r) = snd r @ [l]"
  by (simp add: flag_def split_beta)

lemma consistent_init: "consistent x (0, [])"
  by (simp add: consistent_def)

lemma consistent_flag:
  "consistent x r \<Longrightarrow> 0 < k \<Longrightarrow> l \<noteq> x \<Longrightarrow> consistent x (flag l k r)"
  by (auto simp: consistent_def fst_flag snd_flag)

lemma consistent_rule:
  "consistent x r \<Longrightarrow> 0 < k \<Longrightarrow> l \<noteq> x \<Longrightarrow> consistent x (if c then flag l k r else r)"
  by (simp add: consistent_flag)

lemma consistent_parse:
  assumes "consistent x r" "0 < k" "l \<noteq> x" "0 < k'" "l' \<noteq> x"
  shows "consistent x
           (case p of Inr parsed \<Rightarrow> if c parsed then flag l k r else r | Inl e \<Rightarrow> flag l' k' r)"
  using assms by (cases p) (simp_all add: consistent_flag)

lemma check_url_consistent:
  assumes "x \<notin> set [''Invalid URL format'', ''Malformed URL'', ''Contains IP address'',
                     ''Suspicious keywords'', ''Shortened URL'', ''Contains @ symbol'',
                     ''Excessive symbols'', ''Possible phishing domain'']"
  shows "\<exists>r. consistent x r \<and>
             check_url parse url =
               (min (fst r) 10,
                if min (fst r) 10 = 0 then snd r @ [''No obvious issues found''] else snd r)"
  unfolding check_url_def Let_def case_prod_unfold
  apply (rule exI)
  apply (rule conjI)
   prefer 2
   apply (rule refl)
  apply (intro consistent_rule consistent_parse consistent_init)
  using assms apply auto
  done

lemma check_url_without_at:
  assumes "CHR ''@'' \<notin> set url"
  shows "\<exists>r. consistent ''Contains @ symbol'' r \<and>
             check_url parse url =
               (min (fst r) 10,
                if min (fst r) 10 = 0 then snd r @ [''No obvious issues found''] else snd r)"
proof -
  have no_at: "re_search at_pattern url = False"
    using assms by (simp add: at_search)
  show ?thesis
    unfolding check_url_def Let_def case_prod_unfold no_at if_False
    apply (rule exI)
    apply (rule conjI)
     prefer 2
     apply (rule refl)
    apply (intro consistent_rule consistent_parse consistent_init)
    apply simp_all
    done
qed

lemma check_email_consistent:
  assumes "x \<notin> set [''Invalid email format'', ''Suspicious keywords'', ''Suspicious TLD'']"
  shows "\<exists>r. consistent x r \<and>
             check_email email =
               (min (fst r) 10,
                if min (fst r) 10 = 0 then snd r @ [''No obvious issues found''] else snd r)"
  unfolding check_email_def Let_def case_prod_unfold
  apply (rule exI)
  apply (rule conjI)
   prefer 2
   apply (rule refl)
  apply (intro consistent_rule consistent_init)
  using assms apply auto
  done

lemma capped:
  assumes "consistent ''No obvious issues found'' r"
    and "res = (min (fst r) 10,
                if min (fst r) 10 = 0 then snd r @ [''No obvious issues found''] else snd r)"
  shows "0 \<le> fst res" and "fst res \<le> 10" and "snd res \<noteq> []"
    and "(snd res = [''No obvious issues found'']) = (fst res = 0)"
proof -
  from assms(1) have nonneg: "0 \<le> fst r" and zero: "(fst r = 0) = (snd r = [])"
    and fresh: "''No obvious issues found'' \<notin> set (snd r)"
    by (simp_all add: consistent_def)
  show "0 \<le> fst res" "fst res \<le> 10"
    using nonneg assms(2) by simp_all
  show "snd res \<noteq> []"
    using zero nonneg assms(2) by (cases "fst r = 0") auto
  show "(snd res = [''No obvious issues found'']) = (fst res = 0)"
  proof (cases "fst r = 0")
    case True
    with zero assms(2) show ?thesis by simp
  next
    case False
    with nonneg have "min (fst r) 10 \<noteq> 0" by simp
    with assms(2) have "fst res \<noteq> 0" "snd res = snd r" by simp_all
    moreover from fresh have "snd r \<noteq> [''No obvious issues found'']" by auto
    ultimately show ?thesis by simp
  qed
qed

lemma unlisted:
  assumes "consistent x r" and "x \<noteq> ''No obvious issues found''"
    and "res = (min (fst r) 10,
                if min (fst r) 10 = 0 then snd r @ [''No obvious issues found''] else snd r)"
  shows "x \<notin> set (snd res)"
  using assms by (auto simp: consistent_def)

lemma listed_flag: "x \<in> set (snd (flag x k r))"
  by (simp add: snd_flag)

lemma listed_rule: "x \<in> set (snd r) \<Longrightarrow> x \<in> set (snd (if c then flag l k r else r))"
  by (simp add: snd_flag)

lemma check_url_with_at:
  assumes "CHR ''@'' \<in> set url"
  shows "\<exists>r. ''Contains @ symbol'' \<in> set (snd r) \<and>
             check_url parse url =
               (min (fst r) 10,
                if min (fst r) 10 = 0 then snd r @ [''No obvious issues found''] else snd r)"
proof -
  have has_at: "re_search at_pattern url = True"
    using assms by (simp add: at_search)
  show ?thesis
    unfolding check_url_def Let_def case_prod_unfold has_at if_True
    apply (rule exI)
    apply (rule conjI)
     prefer 2
     apply (rule refl)
    apply (intro listed_rule listed_flag)
    done
qed

section \<open>A failed parse and a missing component differ in the first issue only\<close>

lemma differ_init: "differ_in_head a b (flag a 5 (0, [])) (flag b 5 (0, []))"
  by (simp add: differ_in_head_def fst_flag snd_flag)

lemma differ_rule:
  assumes "differ_in_head a b r r'" "0 \<le> k" "l \<noteq> a" "l \<noteq> b"
  shows "differ_in_head a b (if c then flag l k r else r) (if c then flag l k r' else r')"
  using assms by (auto simp: differ_in_head_def fst_flag snd_flag)

lemma check_url_differ:
  assumes "parse url = Inl e" and "parse' url = Inr parsed"
    and "scheme parsed = [] \<or> netloc parsed = []"
  shows "\<exists>r r'. differ_in_head ''Malformed URL'' ''Invalid URL format'' r r' \<and>
     check_url parse url =
       (min (fst r) 10,
        if min (fst r) 10 = 0 then snd r @ [''No obvious issues found''] else snd r) \<and>
     check_url parse' url =
       (min (fst r') 10,
        if min (fst r') 10 = 0 then snd r' @ [''No obvious issues found''] else snd r')"
  unfolding check_url_def Let_def case_prod_unfold
  apply (simp only: assms sum.case if_True)
  apply (intro exI conjI)
    prefer 2
    apply (rule refl)
   prefer 2
   apply (rule refl)
  apply (intro differ_rule differ_init)
  apply simp_all
  done

section \<open>The rows of a run\<close>

lemma rows_foldl:
  "rows (foldl (analyze_entry parse) t entries) = rows t @ map (make_row parse) entries"
proof (induction entries arbitrary: t)
  case Nil
  then show ?case by simp
next
  case (Cons entry entries)
  have "rows (analyze_entry parse t entry) = rows t @ [make_row parse entry]"
    by (simp add: analyze_entry_def Let_def split: status.split)
  with Cons.IH [of "analyze_entry parse t entry"] show ?case by simp
qed

lemma results_analyze_input:
  assumes "strip text \<noteq> []"
  shows "results (fst (analyze_input to_csv read_csv parse self text)) =
           map (make_row parse) (entry_lines (strip text))"
  using assms by (simp add: analyze_input_def Let_def rows_foldl split_beta)

lemma history_analyze_input:
  assumes "strip text \<noteq> []"
  shows "history_file (fst (analyze_input to_csv read_csv parse self text)) =
           fst (append_history to_csv read_csv (map (make_row parse) (entry_lines (strip text)))
                  (history_file self))"
    and "snd (analyze_input to_csv read_csv parse self text) =
           snd (append_history to_csv read_csv (map (make_row parse) (entry_lines (strip text)))
                  (history_file self))"
  using assms by (simp_all add: analyze_input_def Let_def rows_foldl split_beta)

text \<open>
  What two appends leave at the path when both writes go through: what the writer makes
  of the table that the reader made of the file written by the first, followed by the rows
  of the second. The rows of the first are in it as they were when the reader returns the
  table that was written.
\<close>

lemma history_after_two_appends:
  assumes "read_csv existing = Inr prior"
    and "to_csv (prior @ a) (Some existing) = Inr first"
    and "read_csv first = Inr t"
    and "to_csv (t @ b) (Some first) = Inr second"
  shows "append_history to_csv read_csv a (Some existing) = (Some first, None)"
    and "append_history to_csv read_csv b (Some first) = (Some second, None)"
  using assms by (simp_all add: append_history_def)

lemma history_append_keeps_order:
  assumes "read_csv existing = Inr prior"
    and "to_csv (prior @ a) (Some existing) = Inr first"
    and "read_csv first = Inr (prior @ a)"
  shows "append_history to_csv read_csv b (fst (append_history to_csv read_csv a (Some existing))) =
           (case to_csv (prior @ a @ b) (Some first) of
              Inr second \<Rightarrow> (Some second, None)
            | Inl e \<Rightarrow> (Some first, Some e))"
  using assms by (simp add: append_history_def)

section \<open>The claims\<close>

text \<open>
  C1. For every input string the score that \<open>check_url\<close> returns and the score that
  \<open>check_email\<close> returns are integers from 0 to 10, however many rules fire. For
  \<open>check_url\<close> this holds whatever the URL parser answers.
\<close>

theorem score_between_0_and_10:
  "0 \<le> fst (check_url parse url) \<and> fst (check_url parse url) \<le> 10 \<and>
   0 \<le> fst (check_email email) \<and> fst (check_email email) \<le> 10"
proof -
  obtain r where "consistent ''No obvious issues found'' r"
    and "check_url parse url =
           (min (fst r) 10,
            if min (fst r) 10 = 0 then snd r @ [''No obvious issues found''] else snd r)"
    using check_url_consistent [of "''No obvious issues found''" parse url] by auto
  then have url: "0 \<le> fst (check_url parse url)" "fst (check_url parse url) \<le> 10"
    by (rule capped)+
  obtain q where "consistent ''No obvious issues found'' q"
    and "check_email email =
           (min (fst q) 10,
            if min (fst q) 10 = 0 then snd q @ [''No obvious issues found''] else snd q)"
    using check_email_consistent [of "''No obvious issues found''" email] by auto
  then have email: "0 \<le> fst (check_email email)" "fst (check_email email) \<le> 10"
    by (rule capped)+
  from url email show ?thesis by simp
qed

text \<open>
  C2, as the program has it. When the parser raises, \<open>check_url\<close> reports the issue
  \<^verbatim>\<open>Malformed URL\<close> and adds 5 points; when the parser answers with a scheme or a host
  missing, it reports \<^verbatim>\<open>Invalid URL format\<close> and adds the same 5 points. On one URL the
  two cases give the same score and the same further issues; the failed parse has a label
  of its own and never the other one.
\<close>

theorem parse_failure_is_malformed_url:
  assumes "parse url = Inl e" and "parse' url = Inr parsed"
    and "scheme parsed = [] \<or> netloc parsed = []"
  shows "fst (check_url parse url) = fst (check_url parse' url) \<and>
         5 \<le> fst (check_url parse url) \<and>
         (\<exists>rest. snd (check_url parse url) = ''Malformed URL'' # rest \<and>
                 snd (check_url parse' url) = ''Invalid URL format'' # rest \<and>
                 ''Malformed URL'' \<notin> set rest \<and> ''Invalid URL format'' \<notin> set rest)"
proof -
  obtain r r' where d: "differ_in_head ''Malformed URL'' ''Invalid URL format'' r r'"
    and u: "check_url parse url =
       (min (fst r) 10,
        if min (fst r) 10 = 0 then snd r @ [''No obvious issues found''] else snd r)"
    and u': "check_url parse' url =
       (min (fst r') 10,
        if min (fst r') 10 = 0 then snd r' @ [''No obvious issues found''] else snd r')"
    using assms check_url_differ [of parse url e parse' parsed] by blast
  from d have same: "fst r = fst r'" and five: "5 \<le> fst r"
    by (simp_all add: differ_in_head_def)
  from d obtain rest where rest: "snd r = ''Malformed URL'' # rest"
    "snd r' = ''Invalid URL format'' # rest"
    "''Malformed URL'' \<notin> set rest" "''Invalid URL format'' \<notin> set rest"
    by (auto simp: differ_in_head_def)
  from five have nz: "min (fst r) 10 \<noteq> 0" by simp
  from u u' same five nz have "fst (check_url parse url) = fst (check_url parse' url)"
    and "5 \<le> fst (check_url parse url)"
    and "snd (check_url parse url) = snd r" and "snd (check_url parse' url) = snd r'"
    by simp_all
  with rest show ?thesis by simp
qed

theorem parse_failure_is_malformed_url_witness:
  "urlparse any_host ''http://['' = Inl ValueError \<and>
   fst (check_url (urlparse any_host) ''http://['') = 5 \<and>
   fst (check_url (\<lambda>u. Inr \<lparr>scheme = [], netloc = u\<rparr>) ''http://['') = 5 \<and>
   snd (check_url (urlparse any_host) ''http://['') = [''Malformed URL''] \<and>
   snd (check_url (\<lambda>u. Inr \<lparr>scheme = [], netloc = u\<rparr>) ''http://['') = [''Invalid URL format'']"
proof -
  have raised: "urlparse any_host ''http://['' = Inl ValueError"
    by code_simp
  have "check_url (urlparse any_host) ''http://['' = (5, [''Malformed URL''])"
    by code_simp
  moreover have "check_url (\<lambda>u. Inr \<lparr>scheme = [], netloc = u\<rparr>) ''http://['' =
      (5, [''Invalid URL format''])"
    by code_simp
  ultimately show ?thesis
    using raised
      parse_failure_is_malformed_url [of "urlparse any_host" "''http://[''" ValueError
        "\<lambda>u. Inr \<lparr>scheme = [], netloc = u\<rparr>" "\<lparr>scheme = [], netloc = ''http://[''\<rparr>"]
    by simp
qed

text \<open>
  C2 as the specification states it gives a failed parse the label
  \<^verbatim>\<open>Invalid URL format\<close>. The parser raises on \<^verbatim>\<open>http://[\<close>, and the only issue then
  is \<^verbatim>\<open>Malformed URL\<close>.
\<close>

theorem parse_failure_label_counterexample:
  "urlparse any_host ''http://['' = Inl ValueError \<and>
   check_url (urlparse any_host) ''http://['' = (5, [''Malformed URL'']) \<and>
   ''Invalid URL format'' \<notin> set (snd (check_url (urlparse any_host) ''http://[''))"
  by code_simp

text \<open>
  C3. On the scores 0 to 10 the status is determined by the score: \<open>SUSPICIOUS\<close> exactly
  for the scores from 5 on, \<open>POTENTIAL\<close> exactly for those strictly between 0 and 5,
  \<open>SAFE\<close> exactly for 0.
\<close>

theorem classify_thresholds:
  assumes "0 \<le> score" and "score \<le> 10"
  shows "(classify score = SUSPICIOUS) = (5 \<le> score) \<and>
         (classify score = POTENTIAL) = (0 < score \<and> score < 5) \<and>
         (classify score = SAFE) = (score = 0)"
  using assms by (auto simp: classify_def)

theorem classify_thresholds_witness:
  "(0::int) \<le> 4 \<and> (4::int) \<le> 10 \<and> classify 4 = POTENTIAL \<and> classify 4 \<noteq> SUSPICIOUS \<and> classify 4 \<noteq> SAFE"
  using classify_thresholds [of 4] by simp

text \<open>
  C4. On \<^verbatim>\<open>http://192.168.1.1/login\<close> the rule of the IP address and the rule of the
  keywords fire and no other, the score is 5 and the status \<open>SUSPICIOUS\<close>; this holds
  whatever the validation of bracketed hosts is.
\<close>

theorem check_url_ip_login:
  "check_url (urlparse ok) ''http://192.168.1.1/login'' =
     (5, [''Contains IP address'', ''Suspicious keywords'']) \<and>
   classify (fst (check_url (urlparse ok) ''http://192.168.1.1/login'')) = SUSPICIOUS"
  by code_simp

text \<open>
  C5. On \<^verbatim>\<open>user@example.com\<close> \<open>check_email\<close> returns the score 0 and the single issue
  \<^verbatim>\<open>No obvious issues found\<close>, and the status is \<open>SAFE\<close>.
\<close>

theorem check_email_user_example:
  "check_email ''user@example.com'' = (0, [''No obvious issues found'']) \<and>
   classify (fst (check_email ''user@example.com'')) = SAFE"
  by code_simp

text \<open>
  C6. With the defaults of pandas the history does not keep every record. The history
  file holds the row of an earlier run. A run on the line \<^verbatim>\<open>NA\<close> records the input
  \<^verbatim>\<open>NA\<close>; after a further run on \<^verbatim>\<open>http://bit.ly/abc\<close> the history holds three rows in
  the order of the runs, and the input of the second is empty.
\<close>

theorem history_loses_na_input:
  "results
     (fst (analyze_input pandas_to_csv pandas_read_csv (urlparse any_host)
        \<lparr>results = [], safe_card = 0, risk_card = 0, suspicious_card = 0,
          history_file =
            Some [\<lparr>Input = ''user@example.com'', Issues = ''No obvious issues found'',
                    Score = 0, Status = SAFE\<rparr>]\<rparr>
        ''NA'')) =
   [\<lparr>Input = ''NA'', Issues = ''Invalid URL format'', Score = 5, Status = SUSPICIOUS\<rparr>] \<and>
   history_file
     (fst (analyze_input pandas_to_csv pandas_read_csv (urlparse any_host)
        (fst (analyze_input pandas_to_csv pandas_read_csv (urlparse any_host)
           \<lparr>results = [], safe_card = 0, risk_card = 0, suspicious_card = 0,
             history_file =
               Some [\<lparr>Input = ''user@example.com'', Issues = ''No obvious issues found'',
                       Score = 0, Status = SAFE\<rparr>]\<rparr>
           ''NA''))
        ''http://bit.ly/abc'')) =
   Some [\<lparr>Input = ''user@example.com'', Issues = ''No obvious issues found'', Score = 0,
            Status = SAFE\<rparr>,
         \<lparr>Input = [], Issues = ''Invalid URL format'', Score = 5, Status = SUSPICIOUS\<rparr>,
         \<lparr>Input = ''http://bit.ly/abc'', Issues = ''Shortened URL'', Score = 2,
            Status = POTENTIAL\<rparr>]"
  by code_simp

text \<open>
  C7, as the program has it. When reading the existing history file raises and the write
  goes through, the run returns with no exception: it records its rows, and the path
  holds what the writer makes of the table of these rows alone.
\<close>

theorem unreadable_history_is_replaced:
  assumes "history_file self = Some existing" and "read_csv existing = Inl e"
    and "strip text \<noteq> []"
    and "to_csv (map (make_row parse) (entry_lines (strip text))) (Some existing) = Inr written"
  shows "snd (analyze_input to_csv read_csv parse self text) = None \<and>
         results (fst (analyze_input to_csv read_csv parse self text)) =
           map (make_row parse) (entry_lines (strip text)) \<and>
         history_file (fst (analyze_input to_csv read_csv parse self text)) = Some written"
proof -
  from assms(1,2,4)
  have "append_history to_csv read_csv (map (make_row parse) (entry_lines (strip text)))
          (history_file self) = (Some written, None)"
    by (simp add: append_history_def)
  with assms(3) show ?thesis
    by (simp add: results_analyze_input history_analyze_input)
qed

theorem unreadable_history_is_replaced_witness:
  "read_path EmptyFile = Inl EmptyDataError \<and>
   snd (analyze_input write_path read_path (urlparse any_host)
          \<lparr>results = [], safe_card = 0, risk_card = 0, suspicious_card = 0,
            history_file = Some EmptyFile\<rparr>
          ''http://bit.ly/abc'') = None \<and>
   results
     (fst (analyze_input write_path read_path (urlparse any_host)
        \<lparr>results = [], safe_card = 0, risk_card = 0, suspicious_card = 0,
          history_file = Some EmptyFile\<rparr>
        ''http://bit.ly/abc'')) =
   [\<lparr>Input = ''http://bit.ly/abc'', Issues = ''Shortened URL'', Score = 2,
      Status = POTENTIAL\<rparr>] \<and>
   history_file
     (fst (analyze_input write_path read_path (urlparse any_host)
        \<lparr>results = [], safe_card = 0, risk_card = 0, suspicious_card = 0,
          history_file = Some EmptyFile\<rparr>
        ''http://bit.ly/abc'')) =
   Some (CsvFile [\<lparr>Input = ''http://bit.ly/abc'', Issues = ''Shortened URL'', Score = 2,
                    Status = POTENTIAL\<rparr>])"
proof -
  let ?self = "\<lparr>results = [], safe_card = 0, risk_card = 0, suspicious_card = 0,
                 history_file = Some EmptyFile\<rparr>"
  let ?row = "\<lparr>Input = ''http://bit.ly/abc'', Issues = ''Shortened URL'', Score = 2,
                Status = POTENTIAL\<rparr>"
  have entries: "entry_lines (strip ''http://bit.ly/abc'') = [''http://bit.ly/abc'']"
    by code_simp
  have row: "make_row (urlparse any_host) ''http://bit.ly/abc'' = ?row"
    by code_simp
  have stored: "history_file ?self = Some EmptyFile"
    by simp
  have raises: "read_path EmptyFile = Inl EmptyDataError"
    by simp
  have nonblank: "strip ''http://bit.ly/abc'' \<noteq> []"
    by code_simp
  have writes: "write_path (map (make_row (urlparse any_host))
                  (entry_lines (strip ''http://bit.ly/abc''))) (Some EmptyFile) = Inr (CsvFile [?row])"
    by (simp only: entries row list.map write_path.simps)
  show ?thesis
    using unreadable_history_is_replaced
      [of ?self EmptyFile read_path EmptyDataError "''http://bit.ly/abc''" write_path
        "urlparse any_host" "CsvFile [?row]"]
      stored raises nonblank writes
    by (simp only: entries row list.map) blast
qed

text \<open>
  C7 as the specification states it lets no error out whenever the file cannot be read.
  The path holds a directory: the read raises and is caught, the write raises too, the
  run ends in that exception and the path holds no row of the run.
\<close>

theorem unreadable_history_counterexample:
  "read_path Directory = Inl IsADirectoryError \<and>
   snd (analyze_input write_path read_path (urlparse any_host)
          \<lparr>results = [], safe_card = 0, risk_card = 0, suspicious_card = 0,
            history_file = Some Directory\<rparr>
          ''http://bit.ly/abc'') = Some IsADirectoryError \<and>
   history_file
     (fst (analyze_input write_path read_path (urlparse any_host)
        \<lparr>results = [], safe_card = 0, risk_card = 0, suspicious_card = 0,
          history_file = Some Directory\<rparr>
        ''http://bit.ly/abc'')) = Some Directory"
  by code_simp

text \<open>
  C8. The row that a run records for an entry depends on the entry alone: two runs, on any
  two texts, from any two states of the program and of the history file, record the same
  row wherever they meet the same entry, and its score and issues are those of
  \<open>check_email\<close> or \<open>check_url\<close> on that entry.
\<close>

theorem same_entry_same_row:
  assumes "i < length (entry_lines (strip text1))" and "j < length (entry_lines (strip text2))"
    and "entry_lines (strip text1) ! i = entry_lines (strip text2) ! j"
  shows "results (fst (analyze_input to_csv1 read_csv1 parse self1 text1)) ! i =
           results (fst (analyze_input to_csv2 read_csv2 parse self2 text2)) ! j \<and>
         Score (results (fst (analyze_input to_csv1 read_csv1 parse self1 text1)) ! i) =
           fst (score_entry parse (entry_lines (strip text1) ! i)) \<and>
         Issues (results (fst (analyze_input to_csv1 read_csv1 parse self1 text1)) ! i) =
           join '', '' (snd (score_entry parse (entry_lines (strip text1) ! i)))"
proof -
  have strip_empty: "entry_lines [] = []"
    by (simp add: entry_lines_def strip_def)
  from assms(1) have t1: "strip text1 \<noteq> []"
    using strip_empty by auto
  from assms(2) have t2: "strip text2 \<noteq> []"
    using strip_empty by auto
  have r1: "results (fst (analyze_input to_csv1 read_csv1 parse self1 text1)) ! i =
      make_row parse (entry_lines (strip text1) ! i)"
    using assms(1) by (simp add: results_analyze_input [OF t1])
  have r2: "results (fst (analyze_input to_csv2 read_csv2 parse self2 text2)) ! j =
      make_row parse (entry_lines (strip text2) ! j)"
    using assms(2) by (simp add: results_analyze_input [OF t2])
  from r1 r2 assms(3) show ?thesis
    by (simp add: make_row_def Let_def split_beta)
qed

theorem same_entry_same_row_witness:
  "results (fst (analyze_input write_path read_path (urlparse any_host)
      \<lparr>results = [], safe_card = 0, risk_card = 0, suspicious_card = 0,
        history_file = None\<rparr>
      ''http://bit.ly/abc'')) ! 0 =
   results (fst (analyze_input write_path read_path (urlparse any_host)
      \<lparr>results = [\<lparr>Input = ''x'', Issues = ''Invalid URL format'', Score = 5,
                    Status = SUSPICIOUS\<rparr>],
        safe_card = 0, risk_card = 0, suspicious_card = 1,
        history_file = Some Directory\<rparr>
      (''user@example.com'' @ [CHR 0x0A] @ '' http://bit.ly/abc ''))) ! 1 \<and>
   results (fst (analyze_input write_path read_path (urlparse any_host)
      \<lparr>results = [], safe_card = 0, risk_card = 0, suspicious_card = 0,
        history_file = None\<rparr>
      ''http://bit.ly/abc'')) ! 0 =
   \<lparr>Input = ''http://bit.ly/abc'', Issues = ''Shortened URL'', Score = 2, Status = POTENTIAL\<rparr>"
proof -
  let ?t1 = "''http://bit.ly/abc''"
  let ?t2 = "''user@example.com'' @ [CHR 0x0A] @ '' http://bit.ly/abc ''"
  let ?self1 = "\<lparr>results = [], safe_card = 0, risk_card = 0, suspicious_card = 0,
                  history_file = None :: path_state option\<rparr>"
  let ?self2 = "\<lparr>results = [\<lparr>Input = ''x'', Issues = ''Invalid URL format'', Score = 5,
                              Status = SUSPICIOUS\<rparr>],
                  safe_card = 0, risk_card = 0, suspicious_card = 1,
                  history_file = Some Directory\<rparr>"
  have l1: "entry_lines (strip ?t1) = [''http://bit.ly/abc'']"
    by code_simp
  have l2: "entry_lines (strip ?t2) = [''user@example.com'', ''http://bit.ly/abc'']"
    by code_simp
  have row: "make_row (urlparse any_host) ''http://bit.ly/abc'' =
      \<lparr>Input = ''http://bit.ly/abc'', Issues = ''Shortened URL'', Score = 2, Status = POTENTIAL\<rparr>"
    by code_simp
  have s1: "strip ?t1 \<noteq> []"
    by code_simp
  have i: "0 < length (entry_lines (strip ?t1))"
    by (simp only: l1) simp
  have j: "1 < length (entry_lines (strip ?t2))"
    by (simp only: l2) simp
  have same: "entry_lines (strip ?t1) ! 0 = entry_lines (strip ?t2) ! 1"
    by (simp only: l1 l2) simp
  have both: "results (fst (analyze_input write_path read_path (urlparse any_host) ?self1 ?t1)) ! 0 =
      results (fst (analyze_input write_path read_path (urlparse any_host) ?self2 ?t2)) ! 1"
    using same_entry_same_row
      [of 0 ?t1 1 ?t2 write_path read_path "urlparse any_host" ?self1
        write_path read_path ?self2] i j same
    by blast
  have "results (fst (analyze_input write_path read_path (urlparse any_host) ?self1 ?t1)) =
      map (make_row (urlparse any_host)) (entry_lines (strip ?t1))"
    using s1 by (rule results_analyze_input)
  then have first: "results (fst (analyze_input write_path read_path (urlparse any_host) ?self1 ?t1)) ! 0 =
      \<lparr>Input = ''http://bit.ly/abc'', Issues = ''Shortened URL'', Score = 2, Status = POTENTIAL\<rparr>"
    by (simp only: l1 row list.map nth_Cons_0)
  from both first show ?thesis
    by (rule conjI)
qed

text \<open>
  C9. The list of issues that \<open>check_url\<close> or \<open>check_email\<close> returns is never empty, and
  it is the single issue \<^verbatim>\<open>No obvious issues found\<close> exactly when the score is 0.
\<close>

theorem issues_nonempty_and_none_iff_zero:
  "snd (check_url parse url) \<noteq> [] \<and>
   (snd (check_url parse url) = [''No obvious issues found'']) = (fst (check_url parse url) = 0) \<and>
   snd (check_email email) \<noteq> [] \<and>
   (snd (check_email email) = [''No obvious issues found'']) = (fst (check_email email) = 0)"
proof -
  obtain r where "consistent ''No obvious issues found'' r"
    and "check_url parse url =
           (min (fst r) 10,
            if min (fst r) 10 = 0 then snd r @ [''No obvious issues found''] else snd r)"
    using check_url_consistent [of "''No obvious issues found''" parse url] by auto
  then have url: "snd (check_url parse url) \<noteq> []"
    "(snd (check_url parse url) = [''No obvious issues found'']) = (fst (check_url parse url) = 0)"
    by (rule capped)+
  obtain q where "consistent ''No obvious issues found'' q"
    and "check_email email =
           (min (fst q) 10,
            if min (fst q) 10 = 0 then snd q @ [''No obvious issues found''] else snd q)"
    using check_email_consistent [of "''No obvious issues found''" email] by auto
  then have email: "snd (check_email email) \<noteq> []"
    "(snd (check_email email) = [''No obvious issues found'']) = (fst (check_email email) = 0)"
    by (rule capped)+
  from url email show ?thesis by simp
qed

text \<open>
  C10. No entry of a run gets the issue \<^verbatim>\<open>Contains @ symbol\<close>: \<open>check_email\<close> never
  reports it, and \<open>check_url\<close> reports it exactly for a URL that holds an \<^verbatim>\<open>@\<close>, which
  the dispatch sends to \<open>check_email\<close>.
\<close>

theorem at_symbol_issue_never_reported:
  "''Contains @ symbol'' \<notin> set (snd (score_entry parse entry)) \<and>
   ''Contains @ symbol'' \<notin> set (snd (check_email entry)) \<and>
   (''Contains @ symbol'' \<in> set (snd (check_url parse entry))) = (CHR ''@'' \<in> set entry)"
proof -
  obtain q where "consistent ''Contains @ symbol'' q"
    and "check_email entry =
           (min (fst q) 10,
            if min (fst q) 10 = 0 then snd q @ [''No obvious issues found''] else snd q)"
    using check_email_consistent [of "''Contains @ symbol''" entry] by auto
  then have email: "''Contains @ symbol'' \<notin> set (snd (check_email entry))"
    by (intro unlisted [of _ q]) simp_all
  have url: "(''Contains @ symbol'' \<in> set (snd (check_url parse entry))) = (CHR ''@'' \<in> set entry)"
  proof (cases "CHR ''@'' \<in> set entry")
    case True
    then obtain r where "''Contains @ symbol'' \<in> set (snd r)"
      and "check_url parse entry =
             (min (fst r) 10,
              if min (fst r) 10 = 0 then snd r @ [''No obvious issues found''] else snd r)"
      using check_url_with_at [of entry parse] by auto
    then have "''Contains @ symbol'' \<in> set (snd (check_url parse entry))"
      by simp
    with True show ?thesis by simp
  next
    case False
    then obtain r where "consistent ''Contains @ symbol'' r"
      and "check_url parse entry =
             (min (fst r) 10,
              if min (fst r) 10 = 0 then snd r @ [''No obvious issues found''] else snd r)"
      using check_url_without_at [of entry parse] by auto
    then have "''Contains @ symbol'' \<notin> set (snd (check_url parse entry))"
      by (intro unlisted [of _ r]) simp_all
    with False show ?thesis by simp
  qed
  from email url show ?thesis
    by (simp add: score_entry_def)
qed

end
